theory Spec2Isabelle
  imports Complex_Main "HOL-Library.Word"
begin

unbundle bit_operations_syntax

section \<open>The snowflake identifier (snowflake.h, snowflake.cpp)\<close>

text \<open>
  \<^verbatim>\<open>snowflake_t<void>\<close> has one data member, \<^verbatim>\<open>uint64_t value\<close>. The tagged
  class \<^verbatim>\<open>snowflake_t<T>\<close> derives publicly from it and adds no member, so an
  identifier of any category has this state.
\<close>

type_synonym uint64_t = "64 word"
type_synonym uint16_t = "16 word"
type_synonym uint8_t = "8 word"

record snowflake =
  raw_value :: uint64_t

subsection \<open>The library function \<^verbatim>\<open>std::stoull\<close>\<close>

text \<open>
  \<^verbatim>\<open>std::stoull(str)\<close> is the C++ standard library's: it calls
  \<^verbatim>\<open>strtoull(str.c_str(), &end, 10)\<close>, throws \<^verbatim>\<open>std::invalid_argument\<close> when no
  conversion was performed and \<^verbatim>\<open>std::out_of_range\<close> when \<^verbatim>\<open>strtoull\<close> reports
  \<^verbatim>\<open>ERANGE\<close>. \<^verbatim>\<open>strtoull\<close> with base 10 skips leading white space (the six characters
  of \<^verbatim>\<open>isspace\<close> in the "C" locale), reads one optional sign, then the longest run of
  decimal digits, and stops at the first other character. A value above
  \<^verbatim>\<open>ULLONG_MAX\<close> is a range error; a minus sign negates the value in the unsigned type.
  Both exceptions derive from \<^verbatim>\<open>std::exception\<close>.
\<close>

datatype exception = invalid_argument | out_of_range

definition isspace :: "char \<Rightarrow> bool" where
  "isspace c \<longleftrightarrow> c \<in> set [CHR 0x20, CHR 0x09, CHR 0x0A, CHR 0x0B, CHR 0x0C, CHR 0x0D]"

definition isdigit :: "char \<Rightarrow> bool" where
  "isdigit c \<longleftrightarrow> 48 \<le> (of_char c :: nat) \<and> (of_char c :: nat) \<le> 57"

definition digit_value :: "char \<Rightarrow> nat" where
  "digit_value c = of_char c - 48"

fun accumulate :: "nat \<Rightarrow> string \<Rightarrow> nat" where
  "accumulate acc [] = acc"
| "accumulate acc (c # cs) = accumulate (acc * 10 + digit_value c) cs"

definition ULLONG_MAX :: nat where
  "ULLONG_MAX = 2 ^ 64 - 1"

definition skip_sign :: "string \<Rightarrow> bool \<times> string" where
  "skip_sign s =
     (case s of
        c # cs \<Rightarrow>
          if c = CHR ''-'' then (True, cs)
          else if c = CHR ''+'' then (False, cs)
          else (False, s)
      | [] \<Rightarrow> (False, s))"

definition stoull :: "string \<Rightarrow> exception + uint64_t" where
  "stoull str =
     (let (negative, rest) = skip_sign (dropWhile isspace str);
          digits = takeWhile isdigit rest
      in if digits = [] then Inl invalid_argument
         else let n = accumulate 0 digits
              in if n > ULLONG_MAX then Inl out_of_range
                 else Inr (if negative then - word_of_nat n else word_of_nat n))"

subsection \<open>Construction, assignment and conversion to the integer\<close>

definition snowflake_t_uint64 :: "uint64_t \<Rightarrow> snowflake" where
  "snowflake_t_uint64 v = \<lparr>raw_value = v\<rparr>"

text \<open>The \<^verbatim>\<open>try\<close> block with its \<^verbatim>\<open>catch (const std::exception &)\<close>.\<close>

definition snowflake_t_string :: "string \<Rightarrow> snowflake" where
  "snowflake_t_string string_value =
     (case stoull string_value of
        Inr v \<Rightarrow> \<lparr>raw_value = v\<rparr>
      | Inl e \<Rightarrow> \<lparr>raw_value = 0\<rparr>)"

definition snowflake_t_default :: snowflake where
  "snowflake_t_default = snowflake_t_uint64 0"

definition operator_uint64_t :: "snowflake \<Rightarrow> uint64_t" where
  "operator_uint64_t s = raw_value s"

definition operator_assign_string :: "snowflake \<Rightarrow> string \<Rightarrow> snowflake" where
  "operator_assign_string s snowflake_val =
     (case stoull snowflake_val of
        Inr v \<Rightarrow> s\<lparr>raw_value := v\<rparr>
      | Inl e \<Rightarrow> s\<lparr>raw_value := 0\<rparr>)"

definition operator_assign_uint64 :: "snowflake \<Rightarrow> uint64_t \<Rightarrow> snowflake" where
  "operator_assign_uint64 s snowflake_val = s\<lparr>raw_value := snowflake_val\<rparr>"

definition snowflake_empty :: "snowflake \<Rightarrow> bool" where
  "snowflake_empty s \<longleftrightarrow> raw_value s = 0"

subsection \<open>Comparison and hashing\<close>

definition operator_less :: "snowflake \<Rightarrow> snowflake \<Rightarrow> bool" where
  "operator_less lhs rhs \<longleftrightarrow> raw_value lhs < raw_value rhs"

definition operator_eq :: "snowflake \<Rightarrow> snowflake \<Rightarrow> bool" where
  "operator_eq s other \<longleftrightarrow> raw_value other = raw_value s"

definition operator_eq_uint64 :: "snowflake \<Rightarrow> uint64_t \<Rightarrow> bool" where
  "operator_eq_uint64 s other \<longleftrightarrow> other = raw_value s"

text \<open>
  \<^verbatim>\<open>std::hash<dpp::snowflake_t<void>>\<close> and \<^verbatim>\<open>std::hash<dpp::snowflake_t<T>>\<close> both
  return \<^verbatim>\<open>std::hash<uint64_t>{}(s.value)\<close>. The standard library's hash of the
  integer is a parameter here: the standard fixes only that it is a function of its
  argument.
\<close>

definition hash_snowflake :: "(uint64_t \<Rightarrow> 'h) \<Rightarrow> snowflake \<Rightarrow> 'h" where
  "hash_snowflake std_hash_uint64 s = std_hash_uint64 (raw_value s)"

subsection \<open>Decoding\<close>

definition get_worker_id :: "snowflake \<Rightarrow> uint8_t" where
  "get_worker_id s = ucast (drop_bit 17 (raw_value s AND 0x3E0000))"

definition get_process_id :: "snowflake \<Rightarrow> uint8_t" where
  "get_process_id s = ucast (drop_bit 12 (raw_value s AND 0x1F000))"

definition get_increment :: "snowflake \<Rightarrow> uint16_t" where
  "get_increment s = ucast (raw_value s AND 0xFFF)"

subsection \<open>The creation time, a \<^verbatim>\<open>double\<close>\<close>

text \<open>
  \<^verbatim>\<open>get_creation_time\<close> converts a \<^verbatim>\<open>uint64_t\<close> to \<^verbatim>\<open>double\<close> and divides by the
  \<^verbatim>\<open>double\<close> 1000.0. A finite \<^verbatim>\<open>double\<close> is a rational number, and both operations
  are correctly rounded (IEEE 754 binary64, round to nearest, ties to even): the result
  is the double nearest to the exact value. \<open>binary64\<close> is this rounding for the normal
  range, a 53-bit significand with unbounded exponent; the values of this code lie
  between \<open>1\<close> and \<open>2 ^ 64\<close>, far from underflow and overflow.

  \<open>ilog2 n\<close> is the position of the highest set bit of \<open>n\<close>; \<open>exponent x\<close> is the
  binary exponent \<open>e\<close> of a positive \<open>x\<close>, with \<open>2 ^ e \<le> x < 2 ^ (e + 1)\<close>; \<open>ulp x\<close> is
  the distance between neighbouring doubles at \<open>x\<close>.
\<close>

fun ilog2 :: "nat \<Rightarrow> nat" where
  "ilog2 n = (if n < 2 then 0 else Suc (ilog2 (n div 2)))"

declare ilog2.simps [simp del]

definition exponent :: "rat \<Rightarrow> int" where
  "exponent x =
     (if 1 \<le> x then int (ilog2 (nat \<lfloor>x\<rfloor>))
      else - int (Suc (ilog2 (nat \<lceil>1 / x\<rceil> - 1))))"

definition round_half_even :: "rat \<Rightarrow> int" where
  "round_half_even q =
     (let f = \<lfloor>q\<rfloor>; d = q - of_int f
      in if d < 1 / 2 then f
         else if d > 1 / 2 then f + 1
         else if even f then f else f + 1)"

definition ulp :: "rat \<Rightarrow> rat" where
  "ulp x = 2 powi (exponent x - 52)"

definition binary64 :: "rat \<Rightarrow> rat" where
  "binary64 x =
     (if x = 0 then 0
      else sgn x * of_int (round_half_even (\<bar>x\<bar> / ulp \<bar>x\<bar>)) * ulp \<bar>x\<bar>)"

definition get_creation_time :: "snowflake \<Rightarrow> rat" where
  "get_creation_time s =
     (let first_january_2016 = (1420070400000 :: uint64_t)
      in binary64
           (binary64 (of_nat (unat (drop_bit 22 (raw_value s) + first_january_2016)))
            / binary64 1000))"

subsection \<open>The JSON form\<close>

text \<open>
  \<^verbatim>\<open>std::to_string(unsigned long long)\<close> is the standard library's: the decimal digits
  of the value, most significant first, as \<^verbatim>\<open>sprintf\<close> with \<^verbatim>\<open>%llu\<close> prints them. A
  \<^verbatim>\<open>nlohmann::json\<close> built from a \<^verbatim>\<open>std::string\<close> is a JSON string value.
\<close>

definition digit_char :: "nat \<Rightarrow> char" where
  "digit_char d = char_of (48 + d)"

fun to_string :: "nat \<Rightarrow> string" where
  "to_string n =
     (if n < 10 then [digit_char n]
      else to_string (n div 10) @ [digit_char (n mod 10)])"

declare to_string.simps [simp del]

datatype json =
    json_null
  | json_boolean bool
  | json_number_integer int
  | json_number_unsigned nat
  | json_number_float rat
  | json_string string
  | json_array "json list"
  | json_object "(string \<times> json) list"

definition operator_json :: "snowflake \<Rightarrow> json" where
  "operator_json s = json_string (to_string (unat (raw_value s)))"

subsection \<open>Tagged identifiers and the conversions between categories\<close>

text \<open>
  The tag of \<^verbatim>\<open>snowflake_t<T>\<close> is a type: \<^verbatim>\<open>void\<close> for the untyped class, a class
  such as \<^verbatim>\<open>guild\<close> or \<^verbatim>\<open>role\<close> for a tagged one. The tags exist at compile time only,
  so they are values of a datatype here, and a conversion that does not compile is
  \<open>None\<close>.

  \<open>converting_constructor_enabled T U\<close> is the \<^verbatim>\<open>std::enable_if_t\<close> condition of the
  constructor template \<^verbatim>\<open>snowflake_t<T>::snowflake_t(const snowflake_t<U> &)\<close>.

  \<open>snowflake_t_convert T U v\<close> initialises a \<^verbatim>\<open>snowflake_t<T>\<close> from the
  \<^verbatim>\<open>snowflake_t<U>\<close> \<open>v\<close>. Every \<^verbatim>\<open>snowflake_t<U>\<close> is a \<^verbatim>\<open>snowflake_t<void>\<close>, its
  public base class, so the untyped target copies the base part. A tagged target has
  its copy constructor for \<open>U = T\<close> and the constructor template otherwise; the other
  constructors (from an integer, from a string) do not accept an identifier.
\<close>

datatype category = void | guild | role | other_category string

definition converting_constructor_enabled :: "category \<Rightarrow> category \<Rightarrow> bool" where
  "converting_constructor_enabled T U \<longleftrightarrow> U = void \<or> T = role \<and> U = guild"

definition snowflake_t_convert :: "category \<Rightarrow> category \<Rightarrow> snowflake \<Rightarrow> snowflake option" where
  "snowflake_t_convert T U v =
     (if T = void then Some \<lparr>raw_value = raw_value v\<rparr>
      else if U = T then Some (snowflake_t_uint64 (raw_value v))
      else if converting_constructor_enabled T U
        then Some (snowflake_t_uint64 (operator_uint64_t v))
      else None)"

section \<open>The identified-entity base (managed.h)\<close>

text \<open>
  \<^verbatim>\<open>managed<T>\<close> has the member \<^verbatim>\<open>snowflake_t<T> id\<close>. A concrete entity derives
  from it and adds members of its own: they are the extension part of the record, so
  a value of the record's scheme type is any entity with its further state.
\<close>

record managed =
  managed_id :: snowflake

definition managed_ctor :: "snowflake \<Rightarrow> managed" where
  "managed_ctor nid = \<lparr>managed_id = nid\<rparr>"

definition managed_ctor_default :: managed where
  "managed_ctor_default = managed_ctor (snowflake_t_uint64 0)"

definition managed_operator_eq :: "'a managed_scheme \<Rightarrow> 'a managed_scheme \<Rightarrow> bool" where
  "managed_operator_eq m other \<longleftrightarrow> operator_eq (managed_id m) (managed_id other)"

definition managed_operator_ne :: "'a managed_scheme \<Rightarrow> 'a managed_scheme \<Rightarrow> bool" where
  "managed_operator_ne m other \<longleftrightarrow> \<not> operator_eq (managed_id m) (managed_id other)"

definition managed_get_creation_time :: "'a managed_scheme \<Rightarrow> rat" where
  "managed_get_creation_time m = get_creation_time (managed_id m)"

section \<open>Decimal notation\<close>

text \<open>
  The number a string of decimal digits denotes, the last character being the units:
  the meaning of "the decimal string \<open>s\<close> represents \<open>n\<close>". \<open>numeric_token s\<close> is the
  run of digits that \<^verbatim>\<open>strtoull\<close> reads from \<open>s\<close>: the digits after the leading white
  space and the optional sign.
\<close>

primrec decimal_rev :: "string \<Rightarrow> nat" where
  "decimal_rev [] = 0"
| "decimal_rev (c # cs) = digit_value c + 10 * decimal_rev cs"

definition decimal_of :: "string \<Rightarrow> nat" where
  "decimal_of s = decimal_rev (rev s)"

definition numeric_token :: "string \<Rightarrow> string" where
  "numeric_token s = takeWhile isdigit (snd (skip_sign (dropWhile isspace s)))"

section \<open>Auxiliary facts\<close>

subsection \<open>Rounding to \<^verbatim>\<open>double\<close>\<close>

lemma ilog2_step: "\<not> n < 2 \<Longrightarrow> ilog2 n = Suc (ilog2 (n div 2))"
  by (subst ilog2.simps) simp

lemma ilog2_small: "n < 2 \<Longrightarrow> ilog2 n = 0"
  by (subst ilog2.simps) simp

lemma halving_bounds:
  fixes n m :: nat
  assumes "m \<le> n div 2" "n div 2 < 2 * m"
  shows "2 * m \<le> n" "n < 2 * (2 * m)"
  using assms by linarith+

lemma ilog2_bounds: "0 < n \<Longrightarrow> 2 ^ ilog2 n \<le> n \<and> n < 2 * 2 ^ ilog2 n"
proof (induction n rule: ilog2.induct)
  case (1 n)
  show ?case
  proof (cases "n < 2")
    case True
    with "1.prems" have "n = 1" by simp
    then show ?thesis by (simp add: ilog2_small)
  next
    case False
    then have "0 < n div 2" by simp
    with "1.IH" False
    have ih: "2 ^ ilog2 (n div 2) \<le> n div 2" "n div 2 < 2 * 2 ^ ilog2 (n div 2)"
      by simp_all
    show ?thesis
      using halving_bounds [OF ih] by (simp add: ilog2_step [OF False])
  qed
qed

lemma exponent_ge1: "1 \<le> x \<Longrightarrow> exponent x = int (ilog2 (nat \<lfloor>x\<rfloor>))"
  by (simp add: exponent_def)

lemma exponent_bounds:
  assumes "1 \<le> x"
  shows "2 powi exponent x \<le> x" and "x < 2 powi (exponent x + 1)"
proof -
  define n where "n = nat \<lfloor>x\<rfloor>"
  have fl: "1 \<le> \<lfloor>x\<rfloor>" using assms by simp
  then have n: "0 < n" and nx: "(of_nat n :: rat) = of_int \<lfloor>x\<rfloor>"
    by (simp_all add: n_def)
  have e: "exponent x = int (ilog2 n)"
    using assms by (simp add: exponent_ge1 n_def)
  from ilog2_bounds [OF n] have b: "2 ^ ilog2 n \<le> n" "n + 1 \<le> 2 * 2 ^ ilog2 n"
    by simp_all
  have "(2 :: rat) ^ ilog2 n = of_nat (2 ^ ilog2 n)" by simp
  also have "\<dots> \<le> of_nat n" using b(1) by (rule of_nat_mono)
  also have "\<dots> \<le> x" unfolding nx by simp
  finally show "2 powi exponent x \<le> x" by (simp add: e)
  have "x < of_int \<lfloor>x\<rfloor> + 1" by linarith
  also have "\<dots> = of_nat (n + 1)" using nx by simp
  also have "\<dots> \<le> of_nat (2 * 2 ^ ilog2 n)" using b(2) by (rule of_nat_mono)
  also have "\<dots> = 2 powi (exponent x + 1)" by (simp add: e power_int_add)
  finally show "x < 2 powi (exponent x + 1)" .
qed

lemma ulp_pos: "0 < ulp x"
  by (simp add: ulp_def)

lemma ulp_times: "ulp x * 2 ^ 52 = 2 powi exponent x"
  by (simp add: ulp_def power_int_diff)

lemma round_half_even_bounds:
  "\<lfloor>q\<rfloor> \<le> round_half_even q" "round_half_even q \<le> \<lfloor>q\<rfloor> + 1"
  by (simp_all add: round_half_even_def Let_def)

lemma round_half_even_error: "\<bar>of_int (round_half_even q) - q\<bar> \<le> 1 / 2"
proof -
  have "of_int \<lfloor>q\<rfloor> \<le> q" "q < of_int \<lfloor>q\<rfloor> + 1" by linarith+
  then show ?thesis
    by (auto simp add: round_half_even_def Let_def abs_le_iff)
qed

lemma round_half_even_of_int: "round_half_even (of_int k) = k"
  by (simp add: round_half_even_def)

lemma round_half_even_ge: "of_int k \<le> q \<Longrightarrow> k \<le> round_half_even q"
  using round_half_even_bounds(1) [of q] le_floor_iff [of k q] by linarith

lemma binary64_pos: "0 < x \<Longrightarrow> binary64 x = of_int (round_half_even (x / ulp x)) * ulp x"
  by (simp add: binary64_def)

lemma binary64_exact:
  assumes "0 < x" "x / ulp x = of_int k"
  shows "binary64 x = x"
proof -
  have "binary64 x = of_int k * ulp x"
    using assms by (simp add: binary64_pos round_half_even_of_int)
  also have "\<dots> = x"
    using assms(2) ulp_pos [of x] by (simp add: field_simps)
  finally show ?thesis .
qed

lemma binary64_of_nat:
  assumes "n < 2 ^ 53"
  shows "binary64 (of_nat n) = of_nat n"
proof (cases "n = 0")
  case True
  then show ?thesis by (simp add: binary64_def)
next
  case False
  then have n: "0 < n" by simp
  define e where "e = ilog2 n"
  have ex: "exponent (of_nat n) = int e"
    using n by (simp add: exponent_ge1 e_def)
  from ilog2_bounds [OF n] assms have lt: "(2::nat) ^ e < 2 ^ 53"
    unfolding e_def by linarith
  have "e < 53" by (rule power_less_imp_less_exp [OF _ lt]) simp
  then have le: "e \<le> 52" by simp
  have u: "ulp (of_nat n) = 1 / 2 ^ (52 - e)"
  proof -
    have "int e - 52 = - int (52 - e)" using le by simp
    then show ?thesis
      unfolding ulp_def ex by (simp add: power_int_minus_divide del: of_nat_diff)
  qed
  have q: "(of_nat n :: rat) / ulp (of_nat n) = of_int (int (n * 2 ^ (52 - e)))"
    by (simp add: u)
  show ?thesis by (rule binary64_exact [OF _ q]) (use n in simp)
qed

lemma binary64_ge_pow:
  assumes "1 \<le> x"
  shows "2 powi exponent x \<le> binary64 x"
proof -
  have "(2 ^ 52 :: rat) * ulp x \<le> x"
    using exponent_bounds(1) [OF assms] ulp_times [of x] by (simp add: mult.commute)
  then have "of_int (2 ^ 52) \<le> x / ulp x"
    using ulp_pos [of x] by (simp add: field_simps)
  then have "2 ^ 52 \<le> round_half_even (x / ulp x)"
    by (rule round_half_even_ge)
  then have "(of_int (2 ^ 52) :: rat) \<le> of_int (round_half_even (x / ulp x))"
    by (simp only: of_int_le_iff)
  then have "of_int (2 ^ 52) * ulp x \<le> of_int (round_half_even (x / ulp x)) * ulp x"
    using ulp_pos [of x] by (simp only: mult_le_cancel_right_pos)
  then show ?thesis
    using assms ulp_times [of x] by (simp add: binary64_pos mult.commute)
qed

lemma exponent_mono:
  assumes "1 \<le> m" "m \<le> x"
  shows "exponent m \<le> exponent x"
proof -
  have "(2::rat) powi exponent m < 2 powi (exponent x + 1)"
    using exponent_bounds(1) [OF assms(1)] exponent_bounds(2) [of x] assms by linarith
  moreover have "(2::rat) powi (exponent x + 1) \<le> 2 powi exponent m"
    if "exponent x + 1 \<le> exponent m"
    using that by (rule power_int_increasing) simp
  ultimately show ?thesis by force
qed

lemma binary64_ge_representable:
  assumes "1 \<le> m" "m \<le> x" "m / ulp m = of_int k"
  shows "m \<le> binary64 x"
proof (cases "exponent m = exponent x")
  case True
  then have u: "ulp x = ulp m" by (simp add: ulp_def)
  have "of_int k \<le> x / ulp x"
    using assms ulp_pos [of m] unfolding u by (simp add: field_simps)
  then have "k \<le> round_half_even (x / ulp x)" by (rule round_half_even_ge)
  then have "(of_int k :: rat) \<le> of_int (round_half_even (x / ulp x))"
    by (simp only: of_int_le_iff)
  then have "of_int k * ulp x \<le> of_int (round_half_even (x / ulp x)) * ulp x"
    using ulp_pos [of x] by (simp only: mult_le_cancel_right_pos)
  moreover have "of_int k * ulp x = m"
    using assms(3) ulp_pos [of m] unfolding u by (simp add: field_simps)
  ultimately show ?thesis using assms by (simp add: binary64_pos)
next
  case False
  with exponent_mono [OF assms(1,2)] have "exponent m + 1 \<le> exponent x" by simp
  then have "(2::rat) powi (exponent m + 1) \<le> 2 powi exponent x"
    by (simp add: power_int_increasing)
  with exponent_bounds(2) [OF assms(1)] binary64_ge_pow [of x] assms
  show ?thesis by linarith
qed


lemma unat_sum:
  fixes v :: "64 word"
  shows "unat (drop_bit 22 v + 1420070400000) = unat v div 2 ^ 22 + 1420070400000"
proof -
  have d: "unat (drop_bit 22 v) = unat v div 2 ^ 22"
    unfolding unat_drop_bit_eq by (simp add: drop_bit_eq_div)
  have "unat v < 2 ^ 64" using unsigned_less [of v, where 'a=nat] by simp
  then have "unat v div 2 ^ 22 < 2 ^ 42" by (simp add: less_mult_imp_div_less)
  then have "unat (drop_bit 22 v) + unat (1420070400000 :: 64 word) < 2 ^ LENGTH(64)"
    unfolding d by simp
  then have "unat (drop_bit 22 v + 1420070400000) = unat (drop_bit 22 v) + unat (1420070400000 :: 64 word)"
    by (rule unat_add_lem [THEN iffD1])
  then show ?thesis unfolding d by simp
qed

lemma epoch_representable: "(1420070400 :: rat) / ulp 1420070400 = of_int (1420070400 * 2 ^ 22)"
proof -
  have "ilog2 1420070400 = 30"
    by (simp add: ilog2.simps)
  then show ?thesis by (simp add: ulp_def exponent_def)
qed

lemma binary64_relative_error:
  assumes "1 \<le> x"
  shows "\<bar>binary64 x - x\<bar> \<le> x / 2 ^ 53"
proof -
  have x: "0 < x" using assms by simp
  have "\<bar>of_int (round_half_even (x / ulp x)) - x / ulp x\<bar> * ulp x \<le> 1 / 2 * ulp x"
    using round_half_even_error [of "x / ulp x"] ulp_pos [of x]
    by (simp only: mult_le_cancel_right_pos)
  moreover have "\<bar>of_int (round_half_even (x / ulp x)) - x / ulp x\<bar> * ulp x
      = \<bar>binary64 x - x\<bar>"
  proof -
    have "\<bar>of_int (round_half_even (x / ulp x)) - x / ulp x\<bar> * ulp x
        = \<bar>(of_int (round_half_even (x / ulp x)) - x / ulp x) * ulp x\<bar>"
      using ulp_pos [of x] by (simp add: abs_mult)
    also have "(of_int (round_half_even (x / ulp x)) - x / ulp x) * ulp x = binary64 x - x"
      using ulp_pos [of x] x by (simp add: binary64_pos left_diff_distrib)
    finally show ?thesis .
  qed
  moreover have "1 / 2 * ulp x \<le> x / 2 ^ 53"
  proof -
    have "ulp x * 2 ^ 52 \<le> x"
      unfolding ulp_times by (rule exponent_bounds(1) [OF assms])
    then show ?thesis by simp
  qed
  ultimately show ?thesis by linarith
qed

lemma creation_time_exact_operands:
  "get_creation_time s = binary64 (of_nat (unat (raw_value s) div 2 ^ 22 + 1420070400000) / 1000)"
proof -
  have "unat (raw_value s) < 2 ^ 64"
    using unsigned_less [of "raw_value s", where 'a = nat] by simp
  then have "unat (raw_value s) div 2 ^ 22 < 2 ^ 42"
    by (simp add: less_mult_imp_div_less)
  then have "unat (raw_value s) div 2 ^ 22 + 1420070400000 < 2 ^ 53"
    by simp
  then have a: "binary64 (of_nat (unat (raw_value s) div 2 ^ 22 + 1420070400000))
      = of_nat (unat (raw_value s) div 2 ^ 22 + 1420070400000)"
    by (rule binary64_of_nat)
  have "binary64 (of_nat 1000) = of_nat 1000"
    by (rule binary64_of_nat) simp
  then have b: "binary64 1000 = 1000" by simp
  show ?thesis
    unfolding get_creation_time_def Let_def unat_sum a b ..
qed

lemma quotient_ge_epoch:
  "(1420070400 :: rat) \<le> of_nat (n + 1420070400000) / 1000"
  by simp

subsection \<open>Parsing and printing decimal text\<close>

lemmas stoull_eval =
  snowflake_t_string_def operator_assign_string_def stoull_def skip_sign_def isspace_def
  isdigit_def digit_value_def ULLONG_MAX_def

lemma decimal_of_snoc: "decimal_of (cs @ [c]) = 10 * decimal_of cs + digit_value c"
  by (simp add: decimal_of_def)

lemma accumulate_snoc: "accumulate acc (cs @ [c]) = accumulate acc cs * 10 + digit_value c"
  by (induction cs arbitrary: acc) simp_all

lemma accumulate_decimal: "accumulate 0 s = decimal_of s"
proof (induction s rule: rev_induct)
  case Nil
  show ?case by (simp add: decimal_of_def)
next
  case (snoc c cs)
  then show ?case by (simp add: accumulate_snoc decimal_of_snoc)
qed

lemma stoull_cases:
  "stoull s =
     (if numeric_token s = [] then Inl invalid_argument
      else if decimal_of (numeric_token s) > ULLONG_MAX then Inl out_of_range
      else Inr (if fst (skip_sign (dropWhile isspace s)) then - word_of_nat (decimal_of (numeric_token s))
                else word_of_nat (decimal_of (numeric_token s))))"
  by (simp add: stoull_def numeric_token_def Let_def accumulate_decimal split: prod.split)

lemma isdigit_not_space: "isdigit c \<Longrightarrow> \<not> isspace c"
  by (auto simp: isdigit_def isspace_def)

lemma isdigit_not_sign: "isdigit c \<Longrightarrow> c \<noteq> CHR ''-'' \<and> c \<noteq> CHR ''+''"
  by (auto simp: isdigit_def)

lemma sign_not_space: "\<not> isspace CHR ''-''" "\<not> isspace CHR ''+''"
  by (simp_all add: isspace_def)

lemma skip_sign_digits:
  assumes "ds \<noteq> []" "list_all isdigit ds"
  shows "skip_sign (ds @ rest) = (False, ds @ rest)"
proof -
  from assms obtain c cs where ds: "ds = c # cs" and c: "isdigit c"
    by (cases ds) auto
  then show ?thesis using isdigit_not_sign [OF c] by (simp add: skip_sign_def)
qed

lemma takeWhile_digits:
  assumes "list_all isdigit ds" "rest = [] \<or> \<not> isdigit (hd rest)"
  shows "takeWhile isdigit (ds @ rest) = ds"
proof -
  have "takeWhile isdigit rest = []" using assms(2) by (cases rest) auto
  then show ?thesis using assms(1) by (simp add: takeWhile_append2 list_all_iff)
qed

lemma dropWhile_space:
  assumes "list_all isspace ws" "s = [] \<or> \<not> isspace (hd s)"
  shows "dropWhile isspace (ws @ s) = s"
proof -
  have "dropWhile isspace s = s" using assms(2) by (cases s) auto
  then show ?thesis using assms(1) by (simp add: dropWhile_append2 list_all_iff)
qed

lemma token_of_parts:
  assumes "list_all isspace ws" "sg = [] \<or> sg = ''+'' \<or> sg = ''-''"
    "ds \<noteq> []" "list_all isdigit ds" "rest = [] \<or> \<not> isdigit (hd rest)"
  shows "numeric_token (ws @ sg @ ds @ rest) = ds"
    and "fst (skip_sign (dropWhile isspace (ws @ sg @ ds @ rest))) = (sg = ''-'')"
proof -
  from assms(3,4) obtain c cs where ds: "ds = c # cs" and c: "isdigit c"
    by (cases ds) auto
  have nsp: "\<not> isspace c" using c by (rule isdigit_not_space)
  have hdns: "\<not> isspace (hd (sg @ ds @ rest))"
    using assms(2)
  proof (elim disjE)
    assume "sg = []"
    then show ?thesis by (simp add: ds nsp)
  next
    assume "sg = ''+''"
    then show ?thesis by (simp add: sign_not_space)
  next
    assume "sg = ''-''"
    then show ?thesis by (simp add: sign_not_space)
  qed
  have d: "dropWhile isspace (ws @ sg @ ds @ rest) = sg @ ds @ rest"
    by (rule dropWhile_space [OF assms(1)]) (simp add: hdns)
  have s: "skip_sign (sg @ ds @ rest) = (sg = ''-'', ds @ rest)"
    using assms(2)
  proof (elim disjE)
    assume "sg = []"
    then show ?thesis using skip_sign_digits [OF assms(3,4), of rest] by simp
  next
    assume "sg = ''+''"
    then show ?thesis by (simp add: skip_sign_def)
  next
    assume "sg = ''-''"
    then show ?thesis by (simp add: skip_sign_def)
  qed
  show "numeric_token (ws @ sg @ ds @ rest) = ds"
    by (simp add: numeric_token_def d s takeWhile_digits [OF assms(4,5)])
  show "fst (skip_sign (dropWhile isspace (ws @ sg @ ds @ rest))) = (sg = ''-'')"
    by (simp add: d s)
qed

lemma unat_word_of_nat_64: "n \<le> ULLONG_MAX \<Longrightarrow> unat (word_of_nat n :: 64 word) = n"
  by (simp add: ULLONG_MAX_def unat_of_nat)

lemma numeric_token_digits:
  assumes "list_all isdigit s"
  shows "numeric_token s = s"
proof (cases "s = []")
  case True
  then show ?thesis by (simp add: numeric_token_def skip_sign_def)
next
  case False
  have "numeric_token ([] @ [] @ s @ []) = s"
    by (rule token_of_parts(1)) (use False assms in simp_all)
  then show ?thesis by simp
qed

lemma stoull_fails_iff:
  "(\<exists>e. stoull s = Inl e) \<longleftrightarrow> numeric_token s = [] \<or> ULLONG_MAX < decimal_of (numeric_token s)"
  by (simp add: stoull_cases)

lemma fallback_empty:
  assumes "stoull s = Inl e"
  shows "snowflake_empty (snowflake_t_string s)" "snowflake_empty (operator_assign_string x s)"
  using assms by (simp_all add: snowflake_empty_def snowflake_t_string_def operator_assign_string_def)

lemma stoull_token:
  assumes "list_all isspace ws" "sg = [] \<or> sg = ''+'' \<or> sg = ''-''"
    "ds \<noteq> []" "list_all isdigit ds" "rest = [] \<or> \<not> isdigit (hd rest)"
    "decimal_of ds \<le> ULLONG_MAX"
  shows "stoull (ws @ sg @ ds @ rest)
    = Inr (if sg = ''-'' then - word_of_nat (decimal_of ds) else word_of_nat (decimal_of ds))"
proof -
  note t = token_of_parts [OF assms(1-5)]
  show ?thesis
    unfolding stoull_cases t using assms(3,6) by simp
qed

lemma digit_char_props: "d < 10 \<Longrightarrow> isdigit (digit_char d) \<and> digit_value (digit_char d) = d"
  by (simp add: isdigit_def digit_value_def digit_char_def)

lemma to_string_small: "n < 10 \<Longrightarrow> to_string n = [digit_char n]"
  by (subst to_string.simps) simp

lemma to_string_step: "\<not> n < 10 \<Longrightarrow> to_string n = to_string (n div 10) @ [digit_char (n mod 10)]"
  by (subst to_string.simps) simp

lemma to_string_digits: "to_string n \<noteq> [] \<and> list_all isdigit (to_string n)"
proof (induction n rule: to_string.induct)
  case (1 n)
  show ?case
  proof (cases "n < 10")
    case True
    then show ?thesis by (simp add: to_string_small digit_char_props)
  next
    case False
    with "1.IH" show ?thesis by (simp add: to_string_step digit_char_props)
  qed
qed

lemma decimal_of_to_string: "decimal_of (to_string n) = n"
proof (induction n rule: to_string.induct)
  case (1 n)
  show ?case
  proof (cases "n < 10")
    case True
    then show ?thesis by (simp add: to_string_small digit_char_props decimal_of_def)
  next
    case False
    with "1.IH" show ?thesis by (simp add: to_string_step digit_char_props decimal_of_snoc)
  qed
qed

lemma digit_char_zero_iff: "d < 10 \<Longrightarrow> digit_char d = CHR ''0'' \<longleftrightarrow> d = 0"
proof -
  assume d: "d < 10"
  have "digit_value (digit_char d) = d" using d by (simp add: digit_char_props)
  moreover have "digit_value CHR ''0'' = 0" by (simp add: digit_value_def)
  moreover have "digit_char 0 = CHR ''0''"
    by (rule of_char_eq_iff [where 'a = nat, THEN iffD1]) (simp add: digit_char_def)
  ultimately show ?thesis by metis
qed

lemma hd_to_string: "0 < n \<Longrightarrow> hd (to_string n) \<noteq> CHR ''0''"
proof (induction n rule: to_string.induct)
  case (1 n)
  show ?case
  proof (cases "n < 10")
    case True
    then show ?thesis using "1.prems" by (simp add: to_string_small digit_char_zero_iff)
  next
    case False
    then have "0 < n div 10" by simp
    with "1.IH" False have "hd (to_string (n div 10)) \<noteq> CHR ''0''" by simp
    then show ?thesis using to_string_digits [of "n div 10"] False
      by (simp add: to_string_step)
  qed
qed

lemma digit_char_eq:
  assumes "d < 10" "of_char c = 48 + d"
  shows "digit_char d = c"
proof -
  have "(of_char (digit_char d) :: nat) = of_char c"
    using assms by (simp add: digit_char_def)
  then show ?thesis by (simp only: of_char_eq_iff)
qed

lemma digit_char_numerals:
  "digit_char 0 = CHR ''0''" "digit_char 1 = CHR ''1''" "digit_char (Suc 0) = CHR ''1''"
  "digit_char 2 = CHR ''2''"
  "digit_char 3 = CHR ''3''" "digit_char 4 = CHR ''4''" "digit_char 5 = CHR ''5''"
  "digit_char 6 = CHR ''6''" "digit_char 7 = CHR ''7''" "digit_char 8 = CHR ''8''"
  "digit_char 9 = CHR ''9''"
  by (rule digit_char_eq; simp)+

subsection \<open>Bit fields\<close>

lemma take_bit_of_less: "w < 2 ^ n \<Longrightarrow> take_bit n w = (w::64 word)"
  using less_mask_eq [of w n] by (simp add: take_bit_eq_mask)

lemma field_masks:
  "(0x3E0000 :: 64 word) = push_bit 17 (mask 5)"
  "(0x1F000 :: 64 word) = push_bit 12 (mask 5)"
  "(0xFFF :: 64 word) = mask 12"
  by (simp_all add: mask_eq_exp_minus_1)

lemma decode_packed:
  fixes t w p i :: "64 word"
  defines "v \<equiv> push_bit 22 t OR push_bit 17 (take_bit 5 w) OR push_bit 12 (take_bit 5 p) OR take_bit 12 i"
  shows "get_worker_id \<lparr>raw_value = v\<rparr> = ucast (take_bit 5 w)"
    and "get_process_id \<lparr>raw_value = v\<rparr> = ucast (take_bit 5 p)"
    and "get_increment \<lparr>raw_value = v\<rparr> = ucast (take_bit 12 i)"
proof -
  show "get_worker_id \<lparr>raw_value = v\<rparr> = ucast (take_bit 5 w)"
    unfolding get_worker_id_def v_def
    apply (simp add: field_masks)
    apply (rule bit_word_eqI)
    apply (auto simp add: bit_simps)
    done
  show "get_process_id \<lparr>raw_value = v\<rparr> = ucast (take_bit 5 p)"
    unfolding get_process_id_def v_def
    apply (simp add: field_masks)
    apply (rule bit_word_eqI)
    apply (auto simp add: bit_simps)
    done
  show "get_increment \<lparr>raw_value = v\<rparr> = ucast (take_bit 12 i)"
    unfolding get_increment_def v_def
    apply (simp add: field_masks)
    apply (rule bit_word_eqI)
    apply (auto simp add: bit_simps)
    done
qed

lemma unat_ucast_8: "w < 32 \<Longrightarrow> unat (ucast (w :: 64 word) :: 8 word) = unat w"
proof -
  assume "w < 32"
  then have "unat w < 32" by (simp add: word_less_nat_alt)
  then show ?thesis by (simp add: unsigned_ucast_eq take_bit_eq_mod)
qed

lemma unat_ucast_16: "i < 4096 \<Longrightarrow> unat (ucast (i :: 64 word) :: 16 word) = unat i"
proof -
  assume "i < 4096"
  then have "unat i < 4096" by (simp add: word_less_nat_alt)
  then show ?thesis by (simp add: unsigned_ucast_eq take_bit_eq_mod)
qed

section \<open>Construction from text and from an integer\<close>

text \<open>
  C1, as amended. The claim says that every string containing a non-digit character
  gives the empty identifier. The code hands the string to \<^verbatim>\<open>std::stoull\<close>, which
  reads a leading numeric token and ignores what follows it. What holds: for every
  string that is empty, or has no decimal digit after its leading white space and
  optional sign, or whose leading digit run denotes a number above \<open>2 ^ 64 - 1\<close>,
  \<^verbatim>\<open>std::stoull\<close> throws, the exception is caught, and construction and assignment
  store the empty identifier. A string of digits only is its own digit run, so a
  digit string above \<open>2 ^ 64 - 1\<close> gives the empty identifier. The constructor and the
  assignment are total functions to an identifier: no error reaches the caller.
\<close>

theorem text_parse_fallback_is_empty:
  "(s = [] \<or> numeric_token s = [] \<or> ULLONG_MAX < decimal_of (numeric_token s) \<longrightarrow>
      (\<exists>e. stoull s = Inl e)
      \<and> snowflake_empty (snowflake_t_string s)
      \<and> snowflake_empty (operator_assign_string x s))
   \<and> (list_all isdigit s \<longrightarrow> numeric_token s = s)"
proof -
  have "numeric_token [] = []" by (simp add: numeric_token_def skip_sign_def)
  then have "\<exists>e. stoull s = Inl e"
    if "s = [] \<or> numeric_token s = [] \<or> ULLONG_MAX < decimal_of (numeric_token s)"
    using that unfolding stoull_fails_iff by auto
  then show ?thesis
    using fallback_empty [of s] numeric_token_digits [of s] by blast
qed

text \<open>Three inputs of the three kinds, each through the theorem.\<close>

theorem text_parse_fallback_is_empty_witness:
  "numeric_token ''not-a-number'' = []
   \<and> snowflake_empty (snowflake_t_string ''not-a-number'')
   \<and> snowflake_empty (operator_assign_string (snowflake_t_uint64 5) ''not-a-number'')
   \<and> snowflake_empty (snowflake_t_string [])
   \<and> list_all isdigit ''18446744073709551616''
   \<and> ULLONG_MAX < decimal_of ''18446744073709551616''
   \<and> snowflake_empty (snowflake_t_string ''18446744073709551616'')"
proof -
  have a: "numeric_token ''not-a-number'' = []"
    by (simp add: numeric_token_def skip_sign_def isspace_def isdigit_def)
  have b: "list_all isdigit ''18446744073709551616''"
    by (simp add: isdigit_def)
  have c: "ULLONG_MAX < decimal_of ''18446744073709551616''"
    by (simp add: ULLONG_MAX_def decimal_of_def digit_value_def)
  show ?thesis
    using a b c
      text_parse_fallback_is_empty [of "''not-a-number''" "snowflake_t_uint64 5"]
      text_parse_fallback_is_empty [of "[]" "snowflake_t_uint64 5"]
      text_parse_fallback_is_empty [of "''18446744073709551616''" "snowflake_t_uint64 5"]
    by simp
qed

text \<open>
  The claim as stated fails at \<open>''123abc''\<close>: the string contains non-digit
  characters, and construction and assignment store 123, which is not empty.
\<close>

theorem text_with_non_digit_counterexample:
  "\<not> list_all isdigit ''123abc''
   \<and> \<not> snowflake_empty (snowflake_t_string ''123abc'')
   \<and> \<not> snowflake_empty (operator_assign_string snowflake_t_default ''123abc'')
   \<and> raw_value (snowflake_t_string ''123abc'') = 123"
  by (simp add: stoull_eval snowflake_empty_def snowflake_t_default_def snowflake_t_uint64_def)

text \<open>
  C2. A non-empty string of decimal digits denoting \<open>n \<le> 2 ^ 64 - 1\<close> is stored as
  \<open>n\<close>; an integer is stored as it is; in both cases the identifier is empty exactly
  when the stored value is 0.
\<close>

theorem construction_stores_value:
  "(s \<noteq> [] \<and> list_all isdigit s \<and> decimal_of s \<le> ULLONG_MAX \<longrightarrow>
      unat (operator_uint64_t (snowflake_t_string s)) = decimal_of s
      \<and> snowflake_empty (snowflake_t_string s) = (decimal_of s = 0))
   \<and> operator_uint64_t (snowflake_t_uint64 n) = n
   \<and> snowflake_empty (snowflake_t_uint64 n) = (n = 0)
   \<and> snowflake_empty (snowflake_t_string s) = (operator_uint64_t (snowflake_t_string s) = 0)"
proof -
  have "unat (operator_uint64_t (snowflake_t_string s)) = decimal_of s
      \<and> snowflake_empty (snowflake_t_string s) = (decimal_of s = 0)"
    if s: "s \<noteq> []" "list_all isdigit s" and r: "decimal_of s \<le> ULLONG_MAX"
  proof -
    have "stoull ([] @ [] @ s @ []) = Inr (word_of_nat (decimal_of s))"
      using stoull_token [of "[]" "[]" s "[]"] s r by simp
    then have v: "raw_value (snowflake_t_string s) = word_of_nat (decimal_of s)"
      by (simp add: snowflake_t_string_def)
    have u: "unat (raw_value (snowflake_t_string s)) = decimal_of s"
      unfolding v by (rule unat_word_of_nat_64 [OF r])
    have "raw_value (snowflake_t_string s) = 0 \<longleftrightarrow> unat (raw_value (snowflake_t_string s)) = 0"
      by (simp add: unat_eq_0)
    then show ?thesis
      using u by (simp add: operator_uint64_t_def snowflake_empty_def)
  qed
  then show ?thesis
    by (simp add: operator_uint64_t_def snowflake_t_uint64_def snowflake_empty_def)
qed

theorem construction_stores_value_witness:
  "''175928847299117063'' \<noteq> [] \<and> list_all isdigit ''175928847299117063''
   \<and> decimal_of ''175928847299117063'' = 175928847299117063
   \<and> unat (operator_uint64_t (snowflake_t_string ''175928847299117063'')) = 175928847299117063
   \<and> \<not> snowflake_empty (snowflake_t_string ''175928847299117063'')
   \<and> snowflake_empty (snowflake_t_string ''000'')
   \<and> operator_uint64_t (snowflake_t_uint64 175928847299117063) = 175928847299117063"
proof -
  have a: "list_all isdigit ''175928847299117063''" "list_all isdigit ''000''"
    by (simp_all add: isdigit_def)
  have b: "decimal_of ''175928847299117063'' = 175928847299117063" "decimal_of ''000'' = 0"
    by (simp_all add: decimal_of_def digit_value_def)
  show ?thesis
    using a b
      construction_stores_value [of "''175928847299117063''" 175928847299117063]
      construction_stores_value [of "''000''" 0]
    by (simp add: ULLONG_MAX_def)
qed

section \<open>Decoding\<close>

text \<open>
  C3. For every \<open>t\<close>, and \<open>w < 32\<close>, \<open>p < 32\<close>, \<open>i < 4096\<close>, the identifier with raw
  value \<open>(t << 22) | (w << 17) | (p << 12) | i\<close> decodes to worker id \<open>w\<close>, process id
  \<open>p\<close> and increment \<open>i\<close>.
\<close>

theorem decode_round_trip:
  fixes t w p i :: uint64_t
  assumes "w < 32" "p < 32" "i < 4096"
  shows "unat (get_worker_id (snowflake_t_uint64 (push_bit 22 t OR push_bit 17 w OR push_bit 12 p OR i))) = unat w
    \<and> unat (get_process_id (snowflake_t_uint64 (push_bit 22 t OR push_bit 17 w OR push_bit 12 p OR i))) = unat p
    \<and> unat (get_increment (snowflake_t_uint64 (push_bit 22 t OR push_bit 17 w OR push_bit 12 p OR i))) = unat i"
proof -
  have e: "take_bit 5 w = w" "take_bit 5 p = p" "take_bit 12 i = i"
    using assms take_bit_of_less [of w 5] take_bit_of_less [of p 5] take_bit_of_less [of i 12] by simp_all
  show ?thesis
    using decode_packed [of t w p i] assms
    unfolding e snowflake_t_uint64_def
    by (simp add: unat_ucast_8 unat_ucast_16)
qed

text \<open>The identifier 175928847299117063 is such a packed value.\<close>

theorem decode_round_trip_witness:
  "(1 :: uint64_t) < 32 \<and> (0 :: uint64_t) < 32 \<and> (7 :: uint64_t) < 4096
   \<and> push_bit 22 41944705796 OR push_bit 17 1 OR push_bit 12 0 OR 7 = (175928847299117063 :: uint64_t)
   \<and> unat (get_worker_id (snowflake_t_uint64 175928847299117063)) = 1
   \<and> unat (get_process_id (snowflake_t_uint64 175928847299117063)) = 0
   \<and> unat (get_increment (snowflake_t_uint64 175928847299117063)) = 7"
proof -
  have v: "push_bit 22 41944705796 OR push_bit 17 1 OR push_bit 12 0 OR 7 = (175928847299117063 :: uint64_t)"
    by (simp add: push_bit_eq_mult)
  show ?thesis
    using decode_round_trip [of 1 0 7 41944705796] unfolding v by simp
qed

text \<open>
  C4. The sum \<open>(v >> 22) + 1420070400000\<close> does not wrap and converts to \<^verbatim>\<open>double\<close>
  exactly, so the creation time is the double nearest to the exact quotient
  \<open>((v >> 22) + 1420070400000) / 1000\<close>, within a relative error of \<open>2 ^ -53\<close>. It is
  never below 1420070400, the epoch instant in seconds, and for the identifier
  175928847299117063 it is strictly above.
\<close>

theorem creation_time_not_below_epoch:
  "get_creation_time s = binary64 (of_nat (unat (raw_value s) div 2 ^ 22 + 1420070400000) / 1000)
   \<and> \<bar>get_creation_time s - of_nat (unat (raw_value s) div 2 ^ 22 + 1420070400000) / 1000\<bar>
       \<le> of_nat (unat (raw_value s) div 2 ^ 22 + 1420070400000) / 1000 / 2 ^ 53
   \<and> 1420070400 \<le> get_creation_time s
   \<and> 1420070400 < get_creation_time (snowflake_t_uint64 175928847299117063)"
proof -
  define q :: rat where "q = of_nat (unat (raw_value s) div 2 ^ 22 + 1420070400000) / 1000"
  have g: "get_creation_time s = binary64 q"
    unfolding q_def by (rule creation_time_exact_operands)
  have q: "1420070400 \<le> q" unfolding q_def by (rule quotient_ge_epoch)
  then have q1: "1 \<le> q" by simp
  have low: "1420070400 \<le> binary64 q"
    by (rule binary64_ge_representable [OF _ q epoch_representable]) simp
  have err: "\<bar>binary64 q - q\<bar> \<le> q / 2 ^ 53"
    by (rule binary64_relative_error [OF q1])
  have "ilog2 1420070401 = 30" by (simp add: ilog2.simps)
  then have r: "(1420070401 :: rat) / ulp 1420070401 = of_int (1420070401 * 2 ^ 22)"
    by (simp add: ulp_def exponent_def)
  have v: "unat (raw_value (snowflake_t_uint64 175928847299117063)) div 2 ^ 22 = 41944705796"
    by (simp add: snowflake_t_uint64_def)
  have "(1420070401 :: rat) \<le> binary64 (of_nat (41944705796 + 1420070400000) / 1000)"
    by (rule binary64_ge_representable [OF _ _ r]) simp_all
  then have c: "1420070400 < get_creation_time (snowflake_t_uint64 175928847299117063)"
    unfolding creation_time_exact_operands v by simp
  show ?thesis using g low err c unfolding q_def by simp
qed

theorem creation_time_not_below_epoch_witness:
  "get_creation_time snowflake_t_default = 1420070400
   \<and> 1420070400 < get_creation_time (snowflake_t_uint64 175928847299117063)"
proof -
  have z: "unat (raw_value snowflake_t_default) div 2 ^ 22 = 0"
    by (simp add: snowflake_t_default_def snowflake_t_uint64_def)
  have b: "binary64 1420070400 = 1420070400"
    by (rule binary64_exact [OF _ epoch_representable]) simp
  have "get_creation_time snowflake_t_default = binary64 1420070400"
    using creation_time_not_below_epoch [of snowflake_t_default] unfolding z by simp
  then show ?thesis
    using creation_time_not_below_epoch [of snowflake_t_default] b by simp
qed

section \<open>Equality, hashing and order\<close>

text \<open>
  C5. Two identifiers compare equal exactly when their raw 64-bit values are equal; the
  comparison with a raw integer is the same test; identifiers that compare equal have
  the same hash.
\<close>

theorem snowflake_equality_and_hash:
  "operator_eq a b = (raw_value a = raw_value b)
   \<and> operator_eq_uint64 a n = (raw_value a = n)
   \<and> (operator_eq a b \<longrightarrow> hash_snowflake h a = hash_snowflake h b)"
  by (auto simp: operator_eq_def operator_eq_uint64_def hash_snowflake_def)

theorem snowflake_equality_and_hash_witness:
  "operator_eq (snowflake_t_uint64 7) (snowflake_t_string ''7'')
   \<and> hash_snowflake (\<lambda>v. v) (snowflake_t_uint64 7) = hash_snowflake (\<lambda>v. v) (snowflake_t_string ''7'')
   \<and> \<not> operator_eq (snowflake_t_uint64 7) (snowflake_t_uint64 8)
   \<and> operator_eq_uint64 (snowflake_t_uint64 7) 7"
proof -
  have e: "operator_eq (snowflake_t_uint64 7) (snowflake_t_string ''7'')"
    by (simp add: operator_eq_def snowflake_t_uint64_def snowflake_t_string_def stoull_def
        skip_sign_def isspace_def isdigit_def digit_value_def ULLONG_MAX_def)
  have n: "raw_value (snowflake_t_uint64 7) \<noteq> raw_value (snowflake_t_uint64 8)"
    by (simp add: snowflake_t_uint64_def)
  show ?thesis
    using e n
      snowflake_equality_and_hash [of "snowflake_t_uint64 7" "snowflake_t_string ''7''" 7 "\<lambda>v. v"]
      snowflake_equality_and_hash [of "snowflake_t_uint64 7" "snowflake_t_uint64 8" 7 "\<lambda>v. v"]
    by (simp add: snowflake_t_uint64_def)
qed

text \<open>
  C6. \<^verbatim>\<open>operator<\<close> holds exactly when the left raw value is less than the right one
  as unsigned integers. It is a strict total order: irreflexive, transitive,
  asymmetric, and two identifiers are ordered one way or the other unless they are
  equal.
\<close>

theorem snowflake_order:
  "operator_less a b = (unat (raw_value a) < unat (raw_value b))
   \<and> \<not> operator_less a a
   \<and> (operator_less a b \<longrightarrow> operator_less b c \<longrightarrow> operator_less a c)
   \<and> (operator_less a b \<or> operator_less b a \<or> operator_eq a b)
   \<and> \<not> (operator_less a b \<and> operator_less b a)"
proof -
  have "operator_less a b = (unat (raw_value a) < unat (raw_value b))"
    by (simp add: operator_less_def word_less_nat_alt)
  moreover have "\<not> operator_less a a"
    "operator_less a b \<longrightarrow> operator_less b c \<longrightarrow> operator_less a c"
    "operator_less a b \<or> operator_less b a \<or> operator_eq a b"
    "\<not> (operator_less a b \<and> operator_less b a)"
    by (auto simp: operator_less_def operator_eq_def)
  ultimately show ?thesis by blast
qed

theorem snowflake_order_witness:
  "operator_less (snowflake_t_uint64 1) (snowflake_t_uint64 2)
   \<and> operator_less (snowflake_t_uint64 2) (snowflake_t_uint64 18446744073709551615)
   \<and> operator_less (snowflake_t_uint64 1) (snowflake_t_uint64 18446744073709551615)
   \<and> \<not> operator_less (snowflake_t_uint64 2) (snowflake_t_uint64 1)"
proof -
  have u: "unat (raw_value (snowflake_t_uint64 1)) = 1" "unat (raw_value (snowflake_t_uint64 2)) = 2"
    "unat (raw_value (snowflake_t_uint64 18446744073709551615)) = 18446744073709551615"
    by (simp_all add: snowflake_t_uint64_def)
  show ?thesis
    using snowflake_order [of "snowflake_t_uint64 1" "snowflake_t_uint64 2" "snowflake_t_uint64 18446744073709551615"]
      snowflake_order [of "snowflake_t_uint64 2" "snowflake_t_uint64 18446744073709551615" "snowflake_t_uint64 1"]
      snowflake_order [of "snowflake_t_uint64 2" "snowflake_t_uint64 1" "snowflake_t_uint64 1"]
    unfolding u by simp
qed

section \<open>Identified entities\<close>

text \<open>
  C7. Two entities are equal exactly when their ids hold the same raw value, whatever
  the state the concrete entity adds: two entities built from the same identifier
  integer with different further state are equal, and so are two copies of an entity
  that differ in that state only. \<^verbatim>\<open>operator!=\<close> is the negation of
  \<^verbatim>\<open>operator==\<close>.
\<close>

theorem managed_equality_by_id:
  "managed_operator_eq m other = (raw_value (managed_id m) = raw_value (managed_id other))
   \<and> managed_operator_ne m other = (\<not> managed_operator_eq m other)
   \<and> managed_operator_eq
        (managed.extend (managed_ctor (snowflake_t_uint64 n)) x)
        (managed.extend (managed_ctor (snowflake_t_uint64 n)) y)
   \<and> managed_operator_eq (m\<lparr>managed.more := x\<rparr>) (m\<lparr>managed.more := y\<rparr>)"
  by (auto simp: managed_operator_eq_def managed_operator_ne_def operator_eq_def
      managed_ctor_def managed.extend_def)

theorem managed_equality_by_id_witness:
  "managed_operator_eq \<lparr>managed_id = snowflake_t_uint64 42, \<dots> = ''stale''\<rparr>
      \<lparr>managed_id = snowflake_t_string ''42'', \<dots> = ''fresh''\<rparr>
   \<and> managed_operator_ne \<lparr>managed_id = snowflake_t_uint64 42, \<dots> = ''same''\<rparr>
      \<lparr>managed_id = snowflake_t_uint64 43, \<dots> = ''same''\<rparr>"
proof -
  have "raw_value (snowflake_t_string ''42'') = 42"
    by (simp add: stoull_eval)
  then show ?thesis
    using managed_equality_by_id [of "\<lparr>managed_id = snowflake_t_uint64 42, \<dots> = ''stale''\<rparr>"
        "\<lparr>managed_id = snowflake_t_string ''42'', \<dots> = ''fresh''\<rparr>" 0 "''a''" "''b''"]
      managed_equality_by_id [of "\<lparr>managed_id = snowflake_t_uint64 42, \<dots> = ''same''\<rparr>"
        "\<lparr>managed_id = snowflake_t_uint64 43, \<dots> = ''same''\<rparr>" 0 "''a''" "''b''"]
    by (simp add: snowflake_t_uint64_def)
qed

section \<open>Conversions between categories\<close>

text \<open>
  C8, as amended. The claim says that the only conversions between different
  categories are from the untyped category to a tagged one and from guild to role.
  Every tagged identifier also converts to the untyped one, its public base class.
  What holds: between two different categories a conversion exists exactly when the
  target is untyped, or the source is untyped, or the source is guild and the target
  is role; every other pair of tagged categories is rejected; and a conversion that
  exists keeps the raw value, so a guild identifier converted to a role identifier
  carries the guild's value. The reverse, role to guild, is rejected.
\<close>

theorem conversions_between_categories:
  "(T \<noteq> U \<longrightarrow>
      (snowflake_t_convert T U v \<noteq> None \<longleftrightarrow> T = void \<or> U = void \<or> T = role \<and> U = guild))
   \<and> (T \<noteq> void \<and> U \<noteq> void \<and> T \<noteq> U \<and> \<not> (T = role \<and> U = guild) \<longrightarrow>
        snowflake_t_convert T U v = None)
   \<and> (snowflake_t_convert T U v = None
        \<or> snowflake_t_convert T U v = Some \<lparr>raw_value = raw_value v\<rparr>)
   \<and> snowflake_t_convert role guild v = Some \<lparr>raw_value = raw_value v\<rparr>
   \<and> snowflake_t_convert guild role v = None"
  by (simp add: snowflake_t_convert_def converting_constructor_enabled_def
      snowflake_t_uint64_def operator_uint64_t_def)

theorem conversions_between_categories_witness:
  "snowflake_t_convert role guild (snowflake_t_uint64 81384788765712384)
      = Some (snowflake_t_uint64 81384788765712384)
   \<and> snowflake_t_convert (other_category ''user'') void (snowflake_t_uint64 5) = Some (snowflake_t_uint64 5)
   \<and> snowflake_t_convert void (other_category ''user'') (snowflake_t_uint64 5) = Some (snowflake_t_uint64 5)
   \<and> snowflake_t_convert (other_category ''user'') (other_category ''channel'') (snowflake_t_uint64 5) = None
   \<and> snowflake_t_convert role (other_category ''channel'') (snowflake_t_uint64 5) = None"
  using conversions_between_categories [of role guild "snowflake_t_uint64 81384788765712384"]
    conversions_between_categories [of "other_category ''user''" void "snowflake_t_uint64 5"]
    conversions_between_categories [of void "other_category ''user''" "snowflake_t_uint64 5"]
    conversions_between_categories [of "other_category ''user''" "other_category ''channel''" "snowflake_t_uint64 5"]
    conversions_between_categories [of role "other_category ''channel''" "snowflake_t_uint64 5"]
  by (auto simp: snowflake_t_uint64_def)

text \<open>
  The claim as stated fails for guild and the untyped category: the two differ, the
  pair is neither "from untyped" nor "guild to role", and the conversion exists.
\<close>

theorem tagged_to_untyped_counterexample:
  "guild \<noteq> void
   \<and> \<not> (guild = void \<or> void = role \<and> guild = guild)
   \<and> snowflake_t_convert void guild (snowflake_t_uint64 81384788765712384)
       = Some (snowflake_t_uint64 81384788765712384)"
  by (simp add: snowflake_t_convert_def snowflake_t_uint64_def)

section \<open>The wire form\<close>

text \<open>
  C9. The JSON form of an identifier is a JSON string, not a number. Its text is the
  decimal notation of the stored value: digits only, denoting the value, with no
  leading zero; reading the text back gives the same identifier. For the value
  123456789012345678 the text is \<open>''123456789012345678''\<close>.
\<close>

theorem wire_representation_is_decimal_text:
  "operator_json s = json_string (to_string (unat (raw_value s)))
   \<and> to_string (unat (raw_value s)) \<noteq> []
   \<and> list_all isdigit (to_string (unat (raw_value s)))
   \<and> decimal_of (to_string (unat (raw_value s))) = unat (raw_value s)
   \<and> (to_string (unat (raw_value s)) = ''0'' \<or> hd (to_string (unat (raw_value s))) \<noteq> CHR ''0'')
   \<and> snowflake_t_string (to_string (unat (raw_value s))) = \<lparr>raw_value = raw_value s\<rparr>
   \<and> operator_json (snowflake_t_uint64 123456789012345678) = json_string ''123456789012345678''"
proof -
  define n where "n = unat (raw_value s)"
  have r: "n \<le> ULLONG_MAX"
    using unsigned_less [of "raw_value s", where 'a = nat] by (simp add: n_def ULLONG_MAX_def)
  have d: "to_string n \<noteq> []" "list_all isdigit (to_string n)"
    using to_string_digits [of n] by simp_all
  have v: "decimal_of (to_string n) = n" by (rule decimal_of_to_string)
  have z: "to_string n = ''0'' \<or> hd (to_string n) \<noteq> CHR ''0''"
  proof (cases "n = 0")
    case True
    then show ?thesis by (simp add: to_string_small digit_char_numerals)
  next
    case False
    then show ?thesis using hd_to_string [of n] by simp
  qed
  have "numeric_token ([] @ [] @ to_string n @ []) = to_string n"
    by (rule token_of_parts(1)) (use d in simp_all)
  then have t: "numeric_token (to_string n) = to_string n" by simp
  have "fst (skip_sign (dropWhile isspace ([] @ [] @ to_string n @ []))) = ([] = ''-'')"
    by (rule token_of_parts(2)) (use d in simp_all)
  then have f: "\<not> fst (skip_sign (dropWhile isspace (to_string n)))" by simp
  have "stoull (to_string n) = Inr (word_of_nat n)"
    unfolding stoull_cases t v using d r f by simp
  then have b: "snowflake_t_string (to_string n) = \<lparr>raw_value = raw_value s\<rparr>"
    by (simp add: snowflake_t_string_def n_def)
  have c: "operator_json (snowflake_t_uint64 123456789012345678) = json_string ''123456789012345678''"
    by (simp add: operator_json_def snowflake_t_uint64_def to_string.simps digit_char_numerals)
  show ?thesis
    using d v z b c unfolding n_def by (simp add: operator_json_def)
qed

theorem wire_representation_is_decimal_text_witness:
  "operator_json (snowflake_t_string ''0123456789012345678'') = json_string ''123456789012345678''
   \<and> operator_json snowflake_t_default = json_string ''0''"
proof -
  have a: "raw_value (snowflake_t_string ''0123456789012345678'') = 123456789012345678"
    by (simp add: stoull_eval)
  have b: "raw_value snowflake_t_default = 0"
    by (simp add: snowflake_t_default_def snowflake_t_uint64_def)
  show ?thesis
    using wire_representation_is_decimal_text [of "snowflake_t_string ''0123456789012345678''"]
      wire_representation_is_decimal_text [of snowflake_t_default]
    unfolding a b
    by (simp add: to_string.simps digit_char_numerals)
qed

section \<open>What text construction accepts\<close>

text \<open>
  C10. A string made of white space, an optional sign, a non-empty run of digits
  denoting at most \<open>2 ^ 64 - 1\<close>, and a rest that does not start with a digit is
  stored as the number of the digit run, negated in 64-bit arithmetic after a minus
  sign; the rest is ignored. \<^verbatim>\<open>std::stoull\<close> throws, and the fallback to the empty
  identifier is taken, exactly when the digit run is empty or denotes more than
  \<open>2 ^ 64 - 1\<close>; the identifier is empty exactly then or when the run denotes 0. So
  \<open>''123abc''\<close> stores 123 and \<open>''-1''\<close> stores \<open>2 ^ 64 - 1\<close>, by construction and by
  assignment.
\<close>

theorem leading_numeric_token_is_stored:
  "(list_all isspace ws \<and> (sg = [] \<or> sg = ''+'' \<or> sg = ''-'') \<and> ds \<noteq> []
      \<and> list_all isdigit ds \<and> decimal_of ds \<le> ULLONG_MAX \<and> (rest = [] \<or> \<not> isdigit (hd rest)) \<longrightarrow>
      raw_value (snowflake_t_string (ws @ sg @ ds @ rest))
        = (if sg = ''-'' then - word_of_nat (decimal_of ds) else word_of_nat (decimal_of ds))
      \<and> raw_value (operator_assign_string x (ws @ sg @ ds @ rest))
        = (if sg = ''-'' then - word_of_nat (decimal_of ds) else word_of_nat (decimal_of ds)))
   \<and> ((\<exists>e. stoull s = Inl e) \<longleftrightarrow>
        numeric_token s = [] \<or> ULLONG_MAX < decimal_of (numeric_token s))
   \<and> (snowflake_empty (snowflake_t_string s) \<longleftrightarrow>
        numeric_token s = [] \<or> ULLONG_MAX < decimal_of (numeric_token s)
        \<or> decimal_of (numeric_token s) = 0)
   \<and> unat (raw_value (snowflake_t_string ''123abc'')) = 123
   \<and> unat (raw_value (snowflake_t_string ''-1'')) = 2 ^ 64 - 1
   \<and> unat (raw_value (operator_assign_string x ''123abc'')) = 123
   \<and> unat (raw_value (operator_assign_string x ''-1'')) = 2 ^ 64 - 1"
proof -
  have p1: "raw_value (snowflake_t_string (ws @ sg @ ds @ rest))
        = (if sg = ''-'' then - word_of_nat (decimal_of ds) else word_of_nat (decimal_of ds))
      \<and> raw_value (operator_assign_string x (ws @ sg @ ds @ rest))
        = (if sg = ''-'' then - word_of_nat (decimal_of ds) else word_of_nat (decimal_of ds))"
    if "list_all isspace ws" "sg = [] \<or> sg = ''+'' \<or> sg = ''-''" "ds \<noteq> []"
      "list_all isdigit ds" "decimal_of ds \<le> ULLONG_MAX" "rest = [] \<or> \<not> isdigit (hd rest)"
    unfolding snowflake_t_string_def operator_assign_string_def
      stoull_token [OF that(1,2,3,4,6,5)]
    by simp
  have p2: "(\<exists>e. stoull s = Inl e) \<longleftrightarrow>
        numeric_token s = [] \<or> ULLONG_MAX < decimal_of (numeric_token s)"
    by (simp add: stoull_cases)
  have p3: "snowflake_empty (snowflake_t_string s) \<longleftrightarrow>
        numeric_token s = [] \<or> ULLONG_MAX < decimal_of (numeric_token s)
        \<or> decimal_of (numeric_token s) = 0"
  proof (cases "numeric_token s = [] \<or> ULLONG_MAX < decimal_of (numeric_token s)")
    case True
    then show ?thesis
      by (auto simp add: snowflake_empty_def snowflake_t_string_def stoull_cases)
  next
    case False
    then have r: "decimal_of (numeric_token s) \<le> ULLONG_MAX" by simp
    have z: "(word_of_nat (decimal_of (numeric_token s)) :: 64 word) = 0
        \<longleftrightarrow> decimal_of (numeric_token s) = 0"
      using unat_word_of_nat_64 [OF r] by (metis unat_eq_0 of_nat_0)
    show ?thesis
      using False by (simp add: snowflake_empty_def snowflake_t_string_def stoull_cases z)
  qed
  have p4: "unat (raw_value (snowflake_t_string ''123abc'')) = 123"
    "unat (raw_value (operator_assign_string x ''123abc'')) = 123"
    by (simp_all add: stoull_eval)
  have p5: "unat (raw_value (snowflake_t_string ''-1'')) = 2 ^ 64 - 1"
    "unat (raw_value (operator_assign_string x ''-1'')) = 2 ^ 64 - 1"
    by (simp_all add: stoull_eval unsigned_minus_1_eq_mask mask_eq_exp_minus_1)
  show ?thesis
    using p1 p2 p3 p4 p5 by blast
qed

theorem leading_numeric_token_is_stored_witness:
  "raw_value (snowflake_t_string ''  +42 rest'') = 42
   \<and> raw_value (operator_assign_string snowflake_t_default ''-7'') = - 7
   \<and> \<not> snowflake_empty (snowflake_t_string ''123abc'')"
proof -
  have a: "list_all isspace ''  ''" "list_all isdigit ''42''" "list_all isdigit ''7''"
    "\<not> isdigit (hd '' rest'')" "list_all isdigit ''123''" "\<not> isdigit (hd ''abc'')"
    by (simp_all add: isspace_def isdigit_def)
  have b: "decimal_of ''42'' = 42" "decimal_of ''7'' = 7" "decimal_of ''123'' = 123"
    by (simp_all add: decimal_of_def digit_value_def)
  have c: "numeric_token ''123abc'' = ''123''"
    by (simp add: numeric_token_def skip_sign_def isspace_def isdigit_def)
  show ?thesis
    using a b c
      leading_numeric_token_is_stored [of "''  ''" "''+''" "''42''" "'' rest''" snowflake_t_default "''123abc''"]
      leading_numeric_token_is_stored [of "[]" "''-''" "''7''" "[]" snowflake_t_default "''123abc''"]
    by (simp add: ULLONG_MAX_def)
qed

end
